theory Spec2Isabelle
  imports Complex_Main
begin

section \<open>Pulse shaping: the embedding of Pulse\_Shaping.py\<close>

text \<open>
  The module has two functions of interest, \<open>make_transfer_func\<close> and
  \<open>shape_pulse\<close>.  Both work on one-dimensional numpy arrays, modelled as lists:
  frequencies and times are \<open>real list\<close>, pulses, spectra and responses are
  \<open>complex list\<close>.  Arithmetic is exact (real and complex numbers); rounding,
  overflow, NaN and Inf of IEEE doubles are outside this model.

  The exceptions that the numeric routines raise are values of type \<open>error\<close>; a
  function that may raise returns \<open>error + 'a\<close>, with \<open>Inl\<close> for the exception.
\<close>

datatype error = IndexError | ValueError

subsection \<open>The library routines the module calls\<close>

text \<open>
  \<open>np.diff\<close>: the differences of neighbouring entries.
\<close>

definition diff :: "'a::minus list \<Rightarrow> 'a list" where
  "diff xs = map (\<lambda>i. xs ! Suc i - xs ! i) [0..<length xs - 1]"

text \<open>
  \<open>scipy.fft.fftfreq(n, d)\<close>: the bin frequencies in wrap-around order.  The routine
  fills an integer array with \<open>0, 1, \<dots>, (n - 1) div 2\<close> followed by
  \<open>- (n div 2), \<dots>, - 1\<close> and multiplies it by \<open>1 / (n * d)\<close>.  For a
  spacing \<open>d = 0\<close> numpy computes non-finite frequencies, which real numbers do not
  represent; the frequencies of this model are those of the code for \<open>d \<noteq> 0\<close>.
\<close>

definition fftfreq :: "nat \<Rightarrow> real \<Rightarrow> real list" where
  "fftfreq n d =
     (let val = 1 / (real n * d);
          N = (n - 1) div 2 + 1
      in map (\<lambda>k. (if k < N then real k else real k - real n) * val) [0..<n])"

text \<open>
  \<open>scipy.fft.fft\<close> and \<open>scipy.fft.ifft\<close> on a one-dimensional array: the discrete
  Fourier transform \<open>y[k] = \<Sum>n. x[n] * exp (- 2 \<pi> i k n / N)\<close> and its inverse
  \<open>x[n] = (1 / N) * \<Sum>k. y[k] * exp (2 \<pi> i k n / N)\<close>.  Both raise \<open>ValueError\<close> on an
  array with no data points.
\<close>

definition fft :: "complex list \<Rightarrow> error + complex list" where
  "fft x =
     (let N = length x
      in if N = 0 then Inl ValueError
         else Inr (map (\<lambda>k. \<Sum>n = 0..<N. x ! n * cis (- (2 * pi * real k * real n / real N)))
                       [0..<N]))"

definition ifft :: "complex list \<Rightarrow> error + complex list" where
  "ifft y =
     (let N = length y
      in if N = 0 then Inl ValueError
         else Inr (map (\<lambda>n. (\<Sum>k = 0..<N. y ! k * cis (2 * pi * real k * real n / real N))
                              / of_nat N)
                       [0..<N]))"

text \<open>
  \<open>np.divide(x1, x2, where = (np.absolute(x2) > limit), out = zeros_like(x2))\<close>, the
  call that \<open>shape_pulse\<close> makes: the quotient is written only where the mask holds,
  and the other entries keep the zero that \<open>out\<close> was created with.  The mask and
  \<open>out\<close> have the shape of \<open>x2\<close>.  When the two operands differ in length, numpy
  broadcasts a one-element \<open>x1\<close> over \<open>x2\<close> and raises \<open>ValueError\<close> in every other
  case (a one-element \<open>x2\<close> would need an output longer than \<open>out\<close>).
\<close>

definition divide_where :: "complex list \<Rightarrow> complex list \<Rightarrow> real \<Rightarrow> error + complex list" where
  "divide_where x1 x2 limit =
     (if length x1 = length x2
      then Inr (map (\<lambda>(p, h). if cmod h > limit then p / h else 0) (zip x1 x2))
      else if length x1 = 1
      then Inr (map (\<lambda>h. if cmod h > limit then hd x1 / h else 0) x2)
      else Inl ValueError)"

subsection \<open>The cubic spline of scipy.interpolate\<close>

text \<open>
  \<open>CubicSpline(x, y)\<close> with its default arguments (not-a-knot boundary conditions,
  extrapolation on).  The constructor checks its input and raises \<open>ValueError\<close> when
  \<open>x\<close> has fewer than two entries, when \<open>y\<close> has another length than \<open>x\<close>, and
  when some difference of neighbouring entries of \<open>x\<close> is not positive.  It then
  computes the derivative \<open>s\<close> of the spline at every knot and stores the spline as
  one cubic polynomial per interval, in powers of \<open>xp - x[i]\<close>.
\<close>

text \<open>
  The derivatives solve a tridiagonal system.  A row is (lower, diagonal, upper,
  right-hand side); the system is solved by elimination and back substitution.
\<close>

type_synonym row = "real \<times> real \<times> real \<times> complex"

fun tridiag_sweep :: "real \<Rightarrow> complex \<Rightarrow> row list \<Rightarrow> (real \<times> complex) list" where
  "tridiag_sweep cp rp [] = []"
| "tridiag_sweep cp rp ((a, b, c, r) # rows) =
     (let den = b - a * cp;
          cp' = c / den;
          rp' = (r - of_real a * rp) / of_real den
      in (cp', rp') # tridiag_sweep cp' rp' rows)"

fun tridiag_back :: "(real \<times> complex) list \<Rightarrow> complex list" where
  "tridiag_back [] = []"
| "tridiag_back [(cp, rp)] = [rp]"
| "tridiag_back ((cp, rp) # rest) =
     (let ss = tridiag_back rest in (rp - of_real cp * hd ss) # ss)"

definition solve_banded :: "row list \<Rightarrow> complex list" where
  "solve_banded rows = tridiag_back (tridiag_sweep 0 0 rows)"

text \<open>
  The system of the not-a-knot spline.  \<open>dx\<close> are the interval lengths and \<open>slope\<close>
  the secant slopes.  Two points give the straight line, three points the parabola
  through them; from four points on, the first and the last row state that the third
  derivative is continuous at the second and the last but one knot.
\<close>

definition spline_rows :: "real list \<Rightarrow> real list \<Rightarrow> complex list \<Rightarrow> row list" where
  "spline_rows x dx slope =
     (let n = length x
      in map (\<lambda>i.
           if i = 0 then
             (let d = x ! 2 - x ! 0
              in (0, dx ! 1, d,
                  (of_real ((dx ! 0 + 2 * d) * dx ! 1) * slope ! 0
                     + of_real ((dx ! 0)\<^sup>2) * slope ! 1) / of_real d))
           else if i = n - 1 then
             (let d = x ! (n - 1) - x ! (n - 3)
              in (d, dx ! (n - 3), 0,
                  (of_real ((dx ! (n - 2))\<^sup>2) * slope ! (n - 3)
                     + of_real ((2 * d + dx ! (n - 2)) * dx ! (n - 3)) * slope ! (n - 2))
                    / of_real d))
           else
             (dx ! i, 2 * (dx ! (i - 1) + dx ! i), dx ! (i - 1),
              3 * (of_real (dx ! i) * slope ! (i - 1) + of_real (dx ! (i - 1)) * slope ! i)))
         [0..<n])"

definition spline_slopes :: "real list \<Rightarrow> real list \<Rightarrow> complex list \<Rightarrow> complex list" where
  "spline_slopes x dx slope =
     (let n = length x
      in if n = 2 then [slope ! 0, slope ! 0]
         else if n = 3 then
           (let s1 = (of_real (dx ! 0) * slope ! 1 + of_real (dx ! 1) * slope ! 0)
                       / of_real (dx ! 0 + dx ! 1)
            in [2 * slope ! 0 - s1, s1, 2 * slope ! 1 - s1])
         else solve_banded (spline_rows x dx slope))"

text \<open>
  The coefficients of the polynomial of interval \<open>i\<close>, highest power first, from the
  values and the derivatives at its two ends.
\<close>

definition spline_coeffs ::
  "real list \<Rightarrow> complex list \<Rightarrow> complex list \<Rightarrow> complex list \<Rightarrow> nat
     \<Rightarrow> complex \<times> complex \<times> complex \<times> complex" where
  "spline_coeffs dx slope y s i =
     (let t = (s ! i + s ! Suc i - 2 * slope ! i) / of_real (dx ! i)
      in (t / of_real (dx ! i),
          (slope ! i - s ! i) / of_real (dx ! i) - t,
          s ! i,
          y ! i))"

text \<open>
  Evaluation looks up the interval of the argument: the interval \<open>i\<close> with
  \<open>x[i] \<le> xp < x[i + 1]\<close>, the first interval for an argument below the first knot
  and the last interval for an argument at or beyond the last knot.
\<close>

fun find_interval :: "real list \<Rightarrow> real \<Rightarrow> nat" where
  "find_interval (a # b # c # xs) xp =
     (if xp < b then 0 else Suc (find_interval (b # c # xs) xp))"
| "find_interval xs xp = 0"

definition spline_eval ::
  "real list \<Rightarrow> complex list \<Rightarrow> real \<Rightarrow> complex" where
  "spline_eval x y xp =
     (let dx = diff x;
          slope = map (\<lambda>i. (y ! Suc i - y ! i) / of_real (dx ! i)) [0..<length x - 1];
          s = spline_slopes x dx slope;
          i = find_interval x xp;
          h = of_real (xp - x ! i)
      in case spline_coeffs dx slope y s i of
           (c0, c1, c2, c3) \<Rightarrow> c0 * h ^ 3 + c1 * h\<^sup>2 + c2 * h + c3)"

definition CubicSpline :: "real list \<Rightarrow> complex list \<Rightarrow> error + (real \<Rightarrow> complex)" where
  "CubicSpline x y =
     (if length x < 2 then Inl ValueError
      else if length x \<noteq> length y then Inl ValueError
      else if list_ex (\<lambda>d. d \<le> 0) (diff x) then Inl ValueError
      else Inr (spline_eval x y))"

subsection \<open>make\_transfer\_func\<close>

text \<open>
  The closure \<open>full_transfer_func\<close> that \<open>make_transfer_func\<close> returns, with the
  variables it captures as arguments.  Every numpy operation in it is elementwise,
  so the function maps over its argument array.
\<close>

definition full_transfer_func ::
  "(real \<Rightarrow> complex) \<Rightarrow> real \<Rightarrow> real \<Rightarrow> real list \<Rightarrow> complex list" where
  "full_transfer_func transfer_func upper_limit lower_limit arr =
     map (\<lambda>f.
       let answer = transfer_func f;
           negative = f < 0;
           out_of_bounds = (f < - 1 * upper_limit \<or> f > upper_limit);
           out_of_bounds = (out_of_bounds \<or> (f < lower_limit \<and> f > - 1 * lower_limit));
           answer = (if negative then cnj (transfer_func (- 1 * f)) else answer);
           answer = (if out_of_bounds then 0 else answer)
       in answer) arr"

text \<open>
  \<open>make_transfer_func\<close> builds the spline first, so the reads \<open>swept_fs[-1]\<close> and
  \<open>swept_fs[0]\<close> only happen on an array of at least two entries.  It returns the
  closure, then the upper limit, then the lower limit.
\<close>

definition make_transfer_func ::
  "complex list \<Rightarrow> real list \<Rightarrow> error + ((real list \<Rightarrow> complex list) \<times> real \<times> real)" where
  "make_transfer_func s21 swept_fs =
     (case CubicSpline swept_fs s21 of
        Inl e \<Rightarrow> Inl e
      | Inr transfer_func \<Rightarrow>
          (let upper_limit = last swept_fs;
               lower_limit = hd swept_fs
           in Inr (full_transfer_func transfer_func upper_limit lower_limit,
                   upper_limit, lower_limit)))"

subsection \<open>shape\_pulse\<close>

text \<open>
  \<open>time_int[1]\<close> raises \<open>IndexError\<close> on an array of fewer than two entries.  There
  is no other check of the arguments: the length of \<open>time_int\<close> is never compared
  with the length of \<open>pulse\<close>.
\<close>

definition shape_pulse ::
  "complex list \<Rightarrow> real list \<Rightarrow> (real list \<Rightarrow> complex list) \<Rightarrow> real \<Rightarrow> error + complex list" where
  "shape_pulse pulse time_int transfer_func scaling_limit =
     (if length time_int < 2 then Inl IndexError
      else
        (let dt = time_int ! 1 - time_int ! 0;
             freqs = fftfreq (length pulse) dt;
             transfer_array = transfer_func freqs
         in case fft pulse of
              Inl e \<Rightarrow> Inl e
            | Inr spectrum \<Rightarrow>
                (case divide_where spectrum transfer_array scaling_limit of
                   Inl e \<Rightarrow> Inl e
                 | Inr shaped \<Rightarrow> ifft shaped)))"

section \<open>Properties of the library routines\<close>

subsection \<open>The spline passes through its samples\<close>

lemma strictly_increasing_iff:
  "\<not> list_ex (\<lambda>d. d \<le> 0) (diff x) \<longleftrightarrow> sorted_wrt (<) (x :: real list)"
proof -
  have "(\<not> list_ex (\<lambda>d. d \<le> 0) (diff x)) \<longleftrightarrow> (\<forall>i. Suc i < length x \<longrightarrow> x ! i < x ! Suc i)"
    by (auto simp: diff_def list_ex_iff not_le less_diff_conv)
  also have "\<dots> \<longleftrightarrow> sorted_wrt (<) x"
    by (simp add: sorted_wrt_iff_nth_Suc_transp)
  finally show ?thesis .
qed

lemma head_least:
  "sorted_wrt (<) (b # ys) \<Longrightarrow> j < length (b # ys) \<Longrightarrow> b \<le> (b # ys :: real list) ! j"
  by (cases j) (auto simp: less_imp_le)

lemma find_interval_knot:
  "sorted_wrt (<) x \<Longrightarrow> Suc i < length x \<Longrightarrow> find_interval x (x ! i) = i"
proof (induction x "x ! i" arbitrary: i rule: find_interval.induct)
  case (1 a b c xs)
  show ?case
  proof (cases i)
    case 0
    with 1 show ?thesis by simp
  next
    case (Suc j)
    from "1.prems"(1) have sorted: "sorted_wrt (<) (b # c # xs)" by simp
    from "1.prems"(2) Suc have j: "Suc j < length (b # c # xs)" by simp
    then have "b \<le> (b # c # xs) ! j"
      using head_least[OF sorted, of j] by simp
    then have nb: "\<not> (a # b # c # xs) ! i < b" using Suc by simp
    have "find_interval (b # c # xs) ((b # c # xs) ! j) = j"
      using "1.hyps"(1)[of j] nb Suc sorted j by simp
    with nb Suc show ?thesis by simp
  qed
qed simp_all

lemma find_interval_last:
  "sorted_wrt (<) x \<Longrightarrow> 2 \<le> length x \<Longrightarrow> find_interval x (last x) = length x - 2"
proof (induction x "last x" rule: find_interval.induct)
  case (1 a b c xs)
  from "1.prems"(1) have sorted: "sorted_wrt (<) (b # c # xs)" by simp
  have "last (b # c # xs) \<in> set (c # xs)" by (metis last.simps last_in_set list.distinct(1))
  with sorted have "b < last (b # c # xs)" by auto
  then have nb: "\<not> last (a # b # c # xs) < b" by simp
  have "find_interval (b # c # xs) (last (b # c # xs)) = length (b # c # xs) - 2"
    using "1.hyps"(1) nb sorted by simp
  with nb show ?case by simp
qed simp_all

lemma hermite_right_end:
  fixes d :: real and y0 y1 s0 s1 :: complex
  assumes "d \<noteq> 0"
  shows "(((s0 + s1 - 2 * ((y1 - y0) / of_real d)) / of_real d) / of_real d) * of_real d ^ 3
          + ((((y1 - y0) / of_real d) - s0) / of_real d
               - (s0 + s1 - 2 * ((y1 - y0) / of_real d)) / of_real d) * (of_real d)\<^sup>2
          + s0 * of_real d + y0 = y1"
proof -
  define D :: complex where "D = of_real d"
  have D: "D \<noteq> 0" using assms by (simp add: D_def)
  show ?thesis
    unfolding D_def[symmetric] using D
    by (simp add: field_simps power2_eq_square power3_eq_cube)
qed

lemma spline_eval_knot:
  assumes "sorted_wrt (<) x" and "i < length x" and "2 \<le> length x"
  shows "spline_eval x y (x ! i) = y ! i"
proof (cases "Suc i < length x")
  case True
  then have "find_interval x (x ! i) = i" using assms(1) by (rule find_interval_knot[rotated])
  then show ?thesis
    by (simp add: spline_eval_def Let_def spline_coeffs_def)
next
  case False
  with assms have i: "i = length x - 1" by simp
  then have xi: "x ! i = last x" using assms(3) by (metis last_conv_nth length_0_conv not_numeral_le_zero)
  define j where "j = length x - 2"
  have j: "Suc j < length x" "Suc j = i" "j < length x - 1" using assms(3) i by (simp_all add: j_def)
  have fi: "find_interval x (x ! i) = j"
    unfolding xi j_def using assms(1,3) by (rule find_interval_last)
  have "x ! j < x ! Suc j"
    using assms(1) j(1) by (simp add: sorted_wrt_iff_nth_less)
  then have dx: "diff x ! j \<noteq> 0" "x ! i - x ! j = diff x ! j"
    using j by (auto simp: diff_def)
  define d where "d = diff x ! j"
  show ?thesis
    unfolding spline_eval_def Let_def spline_coeffs_def fi dx(2) prod.case
    using j(3) hermite_right_end[OF dx(1), of _ _ "y ! Suc j" "y ! j"] j(2)
    by simp
qed

subsection \<open>The two Fourier transforms are inverse to each other\<close>

lemma cis_eq_1_imp:
  assumes "cis t = 1"
  shows "\<exists>n::int. t = of_int n * (2 * pi)"
proof -
  from assms have "cos t = 1" by (simp add: complex_eq_iff)
  then show ?thesis by (simp add: cos_one_2pi_int mult.assoc)
qed

lemma sum_cis_roots:
  fixes N :: nat and j :: int
  assumes N: "0 < N" and j: "j \<noteq> 0" "\<bar>j\<bar> < int N"
  shows "(\<Sum>k = 0..<N. cis (2 * pi * real k * of_int j / real N)) = 0"
proof -
  define z where "z = cis (2 * pi * of_int j / real N)"
  have pow: "cis (2 * pi * real k * of_int j / real N) = z ^ k" for k
    by (simp add: z_def DeMoivre mult_ac)
  have "z \<noteq> 1"
  proof
    assume "z = 1"
    then obtain n :: int where n: "2 * pi * of_int j / real N = of_int n * (2 * pi)"
      unfolding z_def using cis_eq_1_imp by blast
    then have "of_int j = of_int n * real N"
      using N by (simp add: field_simps)
    then have "real_of_int j = real_of_int (n * int N)"
      by simp
    then have "j = n * int N"
      by (simp only: of_int_eq_iff)
    then have "\<bar>n\<bar> * int N < int N" and "n \<noteq> 0" using j by (auto simp: abs_mult)
    then have "\<bar>n\<bar> * int N < 1 * int N" and "1 \<le> \<bar>n\<bar>" by auto
    then show False
      using N by (simp only: mult_less_cancel_right) auto
  qed
  moreover have "z ^ N = 1"
  proof -
    have "z ^ N = cis (2 * pi * of_int j)"
      using N by (simp add: z_def DeMoivre)
    then show ?thesis by simp
  qed
  ultimately have "(\<Sum>k<N. z ^ k) = 0"
    by (simp add: geometric_sum)
  then show ?thesis
    by (simp add: pow atLeast0LessThan)
qed

lemma sum_cis_kernel:
  assumes "n < N" "m < N"
  shows "(\<Sum>k = 0..<N. cis (2 * pi * real k * (real m - real n) / real N))
           = (if n = m then of_nat N else 0)"
proof (cases "n = m")
  case True
  then show ?thesis by simp
next
  case False
  have "(\<Sum>k = 0..<N. cis (2 * pi * real k * of_int (int m - int n) / real N)) = 0"
    using assms False by (intro sum_cis_roots) auto
  with False show ?thesis by simp
qed

lemma cis_pair:
  fixes c :: complex
  assumes "a + b = t"
  shows "c * cis a * cis b = c * cis t"
proof -
  have "c * cis a * cis b = c * (cis a * cis b)" by (rule mult.assoc)
  also have "cis a * cis b = cis (a + b)" by (rule cis_mult)
  finally show ?thesis by (simp only: assms)
qed

lemma sum_pick:
  fixes x :: "nat \<Rightarrow> complex"
  assumes "m < N"
  shows "(\<Sum>n = 0..<N. x n * (if n = m then c else 0)) = c * x m"
proof -
  have "(\<Sum>n = 0..<N. x n * (if n = m then c else 0))
          = (\<Sum>n = 0..<N. if n = m then c * x n else 0)"
    by (rule sum.cong) simp_all
  also have "\<dots> = (if m \<in> {0..<N} then c * x m else 0)"
    by (rule sum.delta) simp
  finally show ?thesis using assms by simp
qed



lemma dft_inversion_sum:
  fixes x :: "nat \<Rightarrow> complex"
  assumes "m < N"
  shows "(\<Sum>k = 0..<N. (\<Sum>n = 0..<N. x n * cis (- (2 * pi * real k * real n / real N)))
                          * cis (2 * pi * real k * real m / real N))
           = of_nat N * x m"
proof -
  have arg: "- (2 * pi * real k * real n / real N) + 2 * pi * real k * real m / real N
               = 2 * pi * real k * (real m - real n) / real N" for k n
    by (simp add: algebra_simps diff_divide_distrib)
  have "(\<Sum>k = 0..<N. (\<Sum>n = 0..<N. x n * cis (- (2 * pi * real k * real n / real N)))
                          * cis (2 * pi * real k * real m / real N))
        = (\<Sum>k = 0..<N. \<Sum>n = 0..<N. x n * cis (- (2 * pi * real k * real n / real N))
                          * cis (2 * pi * real k * real m / real N))"
    by (intro sum.cong refl sum_distrib_right)
  also have "\<dots> = (\<Sum>k = 0..<N. \<Sum>n = 0..<N.
                        x n * cis (2 * pi * real k * (real m - real n) / real N))"
    by (intro sum.cong refl cis_pair arg)
  also have "\<dots> = (\<Sum>n = 0..<N. \<Sum>k = 0..<N.
                        x n * cis (2 * pi * real k * (real m - real n) / real N))"
    by (rule sum.swap)
  also have "\<dots> = (\<Sum>n = 0..<N. x n *
                        (\<Sum>k = 0..<N. cis (2 * pi * real k * (real m - real n) / real N)))"
    by (intro sum.cong refl sum_distrib_left[symmetric])
  also have "\<dots> = (\<Sum>n = 0..<N. x n * (if n = m then of_nat N else 0))"
  proof (rule sum.cong)
    fix n assume "n \<in> {0..<N}"
    then have "n < N" by simp
    then show "x n * (\<Sum>k = 0..<N. cis (2 * pi * real k * (real m - real n) / real N))
                 = x n * (if n = m then of_nat N else 0)"
      using assms by (simp only: sum_cis_kernel)
  qed (rule refl)
  also have "\<dots> = of_nat N * x m"
    using assms by (rule sum_pick)
  finally show ?thesis .
qed


lemma ifft_fft:
  assumes "x \<noteq> []"
  shows "\<exists>y. fft x = Inr y \<and> length y = length x \<and> ifft y = Inr x"
proof -
  define N where "N = length x"
  have N: "N \<noteq> 0" using assms by (simp add: N_def)
  define y where "y = map (\<lambda>k. \<Sum>n = 0..<N. x ! n * cis (- (2 * pi * real k * real n / real N))) [0..<N]"
  have fx: "fft x = Inr y" using N by (simp add: fft_def y_def N_def Let_def)
  have ly: "length y = N" by (simp add: y_def)
  have "map (\<lambda>n. (\<Sum>k = 0..<N. y ! k * cis (2 * pi * real k * real n / real N)) / of_nat N) [0..<N] = x"
  proof (rule nth_equalityI)
    show "length (map (\<lambda>n. (\<Sum>k = 0..<N. y ! k * cis (2 * pi * real k * real n / real N)) / of_nat N) [0..<N]) = length x"
      by (simp add: N_def)
  next
    fix m assume "m < length (map (\<lambda>n. (\<Sum>k = 0..<N. y ! k * cis (2 * pi * real k * real n / real N)) / of_nat N) [0..<N])"
    then have m: "m < N" by simp
    have "(\<Sum>k = 0..<N. y ! k * cis (2 * pi * real k * real m / real N))
          = (\<Sum>k = 0..<N. (\<Sum>n = 0..<N. x ! n * cis (- (2 * pi * real k * real n / real N))) * cis (2 * pi * real k * real m / real N))"
      by (intro sum.cong refl) (simp add: y_def)
    also have "\<dots> = of_nat N * x ! m" using m by (rule dft_inversion_sum)
    finally show "map (\<lambda>n. (\<Sum>k = 0..<N. y ! k * cis (2 * pi * real k * real n / real N)) / of_nat N) [0..<N] ! m = x ! m"
      using m N by simp
  qed
  then have "ifft y = Inr x" using N ly by (simp add: ifft_def Let_def)
  with fx ly show ?thesis by (auto simp: N_def)
qed


lemma fft_Inr:
  "x \<noteq> [] \<Longrightarrow> \<exists>P. fft x = Inr P \<and> length P = length x"
  by (simp add: fft_def Let_def)

section \<open>Properties of the module's functions\<close>

subsection \<open>Construction and evaluation of the transfer function\<close>

lemma full_transfer_func_singleton:
  "full_transfer_func tf u l [f] =
     [if (f < - u \<or> f > u) \<or> (f < l \<and> f > - l) then 0
      else if f < 0 then cnj (tf (- f)) else tf f]"
  by (simp add: full_transfer_func_def Let_def)

lemma CubicSpline_Inr_iff:
  "CubicSpline x y = Inr sp \<longleftrightarrow>
     2 \<le> length x \<and> length x = length y \<and> sorted_wrt (<) x \<and> sp = spline_eval x y"
  using strictly_increasing_iff[of x] by (auto simp: CubicSpline_def)

lemma CubicSpline_Inl_iff:
  "CubicSpline x y = Inl e \<longleftrightarrow>
     e = ValueError \<and> (length x < 2 \<or> length x \<noteq> length y \<or> \<not> sorted_wrt (<) x)"
  using strictly_increasing_iff[of x] by (auto simp: CubicSpline_def)

lemma make_transfer_func_Inr_iff:
  "make_transfer_func s21 swept_fs = Inr r \<longleftrightarrow>
     2 \<le> length swept_fs \<and> length swept_fs = length s21 \<and> sorted_wrt (<) swept_fs \<and>
     r = (full_transfer_func (spline_eval swept_fs s21) (last swept_fs) (hd swept_fs),
          last swept_fs, hd swept_fs)"
proof (cases "CubicSpline swept_fs s21")
  case (Inl e)
  then show ?thesis
    using CubicSpline_Inl_iff[of swept_fs s21 e]
    by (auto simp: make_transfer_func_def)
next
  case (Inr sp)
  then show ?thesis
    using CubicSpline_Inr_iff[of swept_fs s21 sp]
    by (auto simp: make_transfer_func_def Let_def)
qed

lemma make_transfer_func_Inl_iff:
  "make_transfer_func s21 swept_fs = Inl e \<longleftrightarrow>
     e = ValueError \<and>
     (length swept_fs < 2 \<or> length swept_fs \<noteq> length s21 \<or> \<not> sorted_wrt (<) swept_fs)"
proof (cases "CubicSpline swept_fs s21")
  case (Inl e')
  then show ?thesis
    using CubicSpline_Inl_iff[of swept_fs s21 e']
    by (auto simp: make_transfer_func_def)
next
  case (Inr sp)
  then show ?thesis
    using CubicSpline_Inr_iff[of swept_fs s21 sp]
    by (auto simp: make_transfer_func_def Let_def)
qed

lemma strictly_increasing_bounds:
  assumes "sorted_wrt (<) (x :: real list)" "i < length x"
  shows "hd x \<le> x ! i" and "x ! i \<le> last x"
proof -
  from assms have ne: "x \<noteq> []" by auto
  have "hd x = x ! 0" using ne by (simp add: hd_conv_nth)
  moreover have "x ! 0 \<le> x ! i"
    using assms by (cases "i = 0") (auto simp: sorted_wrt_iff_nth_less less_imp_le)
  ultimately show "hd x \<le> x ! i" by simp
  have "last x = x ! (length x - 1)" using ne by (simp add: last_conv_nth)
  moreover have "x ! i \<le> x ! (length x - 1)"
    using assms by (cases "i = length x - 1") (auto simp: sorted_wrt_iff_nth_less less_imp_le)
  ultimately show "x ! i \<le> last x" by simp
qed

lemma strictly_increasing_distinct:
  "sorted_wrt (<) (x :: real list) \<Longrightarrow> distinct x"
  by (induction x) auto

text \<open>Three concrete models, used to run the theorems below on inputs.\<close>

lemma example_model:
  "make_transfer_func [1, 1 / 2] [1, 2] =
     Inr (full_transfer_func (spline_eval [1, 2] [1, 1 / 2]) 2 1, 2, 1)"
  by (simp add: make_transfer_func_Inr_iff)

lemma model_a:
  "make_transfer_func [\<i>, 1] [0, 1] =
     Inr (full_transfer_func (spline_eval [0, 1] [\<i>, 1]) 1 0, 1, 0)"
  by (simp add: make_transfer_func_Inr_iff)

lemma model_b:
  "make_transfer_func [1 + \<i>, 2] [0, 3] =
     Inr (full_transfer_func (spline_eval [0, 3] [1 + \<i>, 2]) 3 0, 3, 0)"
  by (simp add: make_transfer_func_Inr_iff)

subsection \<open>The steps of shape\_pulse\<close>

lemma divide_where_same_length:
  "length x1 = length x2 \<Longrightarrow>
     divide_where x1 x2 limit =
       Inr (map (\<lambda>k. if cmod (x2 ! k) > limit then x1 ! k / x2 ! k else 0) [0..<length x1])"
  by (auto simp: divide_where_def intro!: nth_equalityI)

lemma shape_pulse_unfold:
  assumes "2 \<le> length time_int" and "fft pulse = Inr P" and "length P = length pulse"
    and "H = transfer_func (fftfreq (length pulse) (time_int ! 1 - time_int ! 0))"
    and "length H = length pulse"
  shows "shape_pulse pulse time_int transfer_func scaling_limit =
           ifft (map (\<lambda>k. if cmod (H ! k) > scaling_limit then P ! k / H ! k else 0)
                     [0..<length pulse])"
  unfolding shape_pulse_def Let_def assms(4)[symmetric]
  using assms(1,2,3,5) by (simp add: divide_where_same_length)

lemma shape_pulse_unit_gain:
  assumes "2 \<le> length time_int" and "pulse \<noteq> []" and "scaling_limit < 1"
    and "transfer_func (fftfreq (length pulse) (time_int ! 1 - time_int ! 0))
           = replicate (length pulse) 1"
  shows "shape_pulse pulse time_int transfer_func scaling_limit = Inr pulse"
proof -
  from ifft_fft[OF assms(2)] obtain P where
    P: "fft pulse = Inr P" "length P = length pulse" "ifft P = Inr pulse" by blast
  have "map (\<lambda>k. if cmod (replicate (length pulse) (1::complex) ! k) > scaling_limit
                  then P ! k / replicate (length pulse) 1 ! k else 0) [0..<length pulse] = P"
    using assms(3) P(2) by (auto intro!: nth_equalityI)
  then show ?thesis
    using shape_pulse_unfold[where transfer_func = transfer_func and scaling_limit = scaling_limit,
        OF assms(1) P(1,2) assms(4)[symmetric]] P(3)
    by simp
qed

lemma shape_pulse_length:
  assumes "2 \<le> length time_int" and "pulse \<noteq> []"
    and "length (transfer_func (fftfreq (length pulse) (time_int ! 1 - time_int ! 0))) = length pulse"
  shows "\<exists>shaped. shape_pulse pulse time_int transfer_func scaling_limit = Inr shaped \<and>
                  length shaped = length pulse"
proof -
  from fft_Inr[OF assms(2)] obtain P where P: "fft pulse = Inr P" "length P = length pulse"
    by blast
  show ?thesis
    unfolding shape_pulse_unfold[where transfer_func = transfer_func, OF assms(1) P refl assms(3)]
    using assms(2) by (simp add: ifft_def Let_def)
qed

section \<open>The claims of the specification\<close>

subsection \<open>C1: the spectrum of the shaped pulse\<close>



subsection \<open>C2: zero outside the measured band\<close>

text \<open>
  Claim C2.  A model built from samples evaluates to exactly \<open>0\<close> at every frequency
  whose magnitude exceeds the last sample frequency and, when the first sample
  frequency is positive, at every frequency strictly between minus the first sample
  frequency and the first sample frequency.
\<close>

theorem out_of_band_zero:
  assumes "make_transfer_func s21 swept_fs = Inr (model, upper_limit, lower_limit)"
  shows "(\<bar>f\<bar> > last swept_fs \<longrightarrow> model [f] = [0]) \<and>
         (0 < hd swept_fs \<and> - hd swept_fs < f \<and> f < hd swept_fs \<longrightarrow> model [f] = [0])"
  using assms
  by (auto simp: make_transfer_func_Inr_iff full_transfer_func_singleton)

text \<open>
  Claim C2, on an input: the model of the samples \<open>(1, 1)\<close>, \<open>(2, 1/2)\<close> is \<open>0\<close> at the
  frequency \<open>3\<close> above the band and at the frequency \<open>1/2\<close> below it.
\<close>

theorem out_of_band_zero_witness:
  "make_transfer_func [1, 1 / 2] [1, 2] =
     Inr (full_transfer_func (spline_eval [1, 2] [1, 1 / 2]) 2 1, 2, 1) \<and>
   full_transfer_func (spline_eval [1, 2] [1, 1 / 2]) 2 1 [3] = [0] \<and>
   full_transfer_func (spline_eval [1, 2] [1, 1 / 2]) 2 1 [1 / 2] = [0]"
  using out_of_band_zero[OF example_model, of 3] out_of_band_zero[OF example_model, of "1 / 2"]
    example_model
  by simp

subsection \<open>C3: conjugate symmetry\<close>

text \<open>
  Claim C3 says that the model at \<open>- f\<close> is the conjugate of the model at \<open>f\<close> for
  every \<open>f\<close> of magnitude at most the upper limit.  This fails at \<open>f = 0\<close>: the
  conjugate is taken for negative arguments only, so the model at \<open>0\<close> is the spline
  value itself.  With the samples \<open>(0, i)\<close>, \<open>(1, 1)\<close> the model at \<open>- 0\<close> is \<open>i\<close>,
  and the conjugate of the model at \<open>0\<close> is \<open>- i\<close>.
\<close>

theorem conjugate_symmetry_counterexample:
  "make_transfer_func [\<i>, 1] [0, 1] =
     Inr (full_transfer_func (spline_eval [0, 1] [\<i>, 1]) 1 0, 1, 0) \<and>
   \<bar>0 :: real\<bar> \<le> 1 \<and>
   full_transfer_func (spline_eval [0, 1] [\<i>, 1]) 1 0 [- 0] = [\<i>] \<and>
   map cnj (full_transfer_func (spline_eval [0, 1] [\<i>, 1]) 1 0 [0]) = [- \<i>] \<and>
   full_transfer_func (spline_eval [0, 1] [\<i>, 1]) 1 0 [- 0]
     \<noteq> map cnj (full_transfer_func (spline_eval [0, 1] [\<i>, 1]) 1 0 [0])"
proof -
  have "spline_eval [0, 1] [\<i>, 1] ([0, 1] ! 0) = [\<i>, 1] ! 0"
    by (rule spline_eval_knot) simp_all
  then have "spline_eval [0, 1] [\<i>, 1] 0 = \<i>" by simp
  then show ?thesis
    using model_a by (simp add: full_transfer_func_singleton)
qed

text \<open>
  Claim C3, amended.  For every model built from samples and every real \<open>f\<close> other
  than \<open>0\<close> (in particular every such \<open>f\<close> of magnitude at most the upper limit), the
  model at \<open>- f\<close> is the conjugate of the model at \<open>f\<close>.
\<close>

theorem conjugate_symmetry_nonzero:
  assumes "make_transfer_func s21 swept_fs = Inr (model, upper_limit, lower_limit)"
  shows "f \<noteq> 0 \<longrightarrow> model [- f] = map cnj (model [f])"
  using assms
  by (auto simp: make_transfer_func_Inr_iff full_transfer_func_singleton)

text \<open>
  Claim C3, amended, on an input: the model of the samples \<open>(0, i)\<close>, \<open>(1, 1)\<close> at the
  frequencies \<open>- 1\<close> and \<open>1\<close>.
\<close>

theorem conjugate_symmetry_nonzero_witness:
  "make_transfer_func [\<i>, 1] [0, 1] =
     Inr (full_transfer_func (spline_eval [0, 1] [\<i>, 1]) 1 0, 1, 0) \<and>
   full_transfer_func (spline_eval [0, 1] [\<i>, 1]) 1 0 [- 1]
     = map cnj (full_transfer_func (spline_eval [0, 1] [\<i>, 1]) 1 0 [1])"
  using conjugate_symmetry_nonzero[OF model_a, of 1] model_a by simp

subsection \<open>C4: pulse and time axis of different lengths\<close>




subsection \<open>C5: the result of make\_transfer\_func\<close>

text \<open>
  Claim C5 says that the result is the triple (model, lower limit, upper limit).  The
  function returns the upper limit second and the lower limit third: for the sample
  frequencies \<open>[1, 2]\<close> the two numbers of the result are \<open>(2, 1)\<close>, not (first
  frequency, last frequency).
\<close>

theorem result_order_counterexample:
  "map_sum id snd (make_transfer_func [1, 1 / 2] [1, 2]) = Inr (2, 1) \<and>
   map_sum id snd (make_transfer_func [1, 1 / 2] [1, 2]) \<noteq> Inr (hd [1, 2], last [1, 2])"
  by (simp add: example_model)

text \<open>
  Claim C5, amended.  For every sample sequence of at least two samples with strictly
  increasing frequencies, \<open>make_transfer_func\<close> returns the triple (model, upper
  limit, lower limit) in that order, where the upper limit is the last and the lower
  limit the first sample frequency.
\<close>

theorem make_transfer_func_result:
  assumes "2 \<le> length swept_fs" "length s21 = length swept_fs" "sorted_wrt (<) swept_fs"
  shows "make_transfer_func s21 swept_fs =
           Inr (full_transfer_func (spline_eval swept_fs s21) (last swept_fs) (hd swept_fs),
                last swept_fs, hd swept_fs)"
  using assms by (simp add: make_transfer_func_Inr_iff)

text \<open>Claim C5, amended, on an input: the samples \<open>(1, 1)\<close>, \<open>(2, 1/2)\<close>.\<close>

theorem make_transfer_func_result_witness:
  "make_transfer_func [1, 1 / 2] [1, 2] =
     Inr (full_transfer_func (spline_eval [1, 2] [1, 1 / 2]) (last [1, 2]) (hd [1, 2]),
          last [1, 2], hd [1, 2])"
  using make_transfer_func_result[of "[1, 2]" "[1, 1 / 2]"] by simp

subsection \<open>C6: the identity channel\<close>

text \<open>
  Claim C6.  For a pulse of at least two samples with a time axis of the same length,
  a transfer function that returns \<open>1\<close> at every bin frequency and a scaling limit
  below \<open>1\<close>, \<open>shape_pulse\<close> returns the pulse itself (in exact arithmetic).
\<close>

theorem identity_channel:
  assumes "2 \<le> length pulse" and "length time_int = length pulse" and "scaling_limit < 1"
    and "transfer_func (fftfreq (length pulse) (time_int ! 1 - time_int ! 0))
           = replicate (length pulse) 1"
  shows "shape_pulse pulse time_int transfer_func scaling_limit = Inr pulse"
  using assms by (intro shape_pulse_unit_gain) auto

text \<open>Claim C6, on an input: the pulse \<open>[1, 0]\<close> on the time axis \<open>[0, 1]\<close>.\<close>

theorem identity_channel_witness:
  "shape_pulse [1, 0] [0, 1] (map (\<lambda>f. 1)) (1 / 10) = Inr [1, 0]"
  using identity_channel[of "[1, 0]" "[0, 1]" "1 / 10" "map (\<lambda>f. 1)"]
  by (simp add: fftfreq_def Let_def)

subsection \<open>C7: the length of the shaped pulse\<close>

text \<open>
  Claim C7.  For a pulse and a time axis of equal length at least two, a transfer
  function that returns one gain per frequency and a positive scaling limit,
  \<open>shape_pulse\<close> returns an array with as many samples as the pulse, which is also the
  number of entries of the time axis.
\<close>

theorem shape_pulse_same_length:
  assumes "length pulse = length time_int" and "2 \<le> length pulse"
    and "\<forall>fs. length (transfer_func fs) = length fs" and "0 < scaling_limit"
  shows "\<exists>shaped. shape_pulse pulse time_int transfer_func scaling_limit = Inr shaped \<and>
                  length shaped = length pulse \<and> length shaped = length time_int"
proof -
  have "length (fftfreq (length pulse) (time_int ! 1 - time_int ! 0)) = length pulse"
    by (simp add: fftfreq_def Let_def)
  moreover have "pulse \<noteq> []" using assms(2) by auto
  ultimately show ?thesis
    using assms shape_pulse_length[of time_int pulse transfer_func scaling_limit] by auto
qed

text \<open>Claim C7, on an input: the pulse \<open>[1, 0]\<close> on the time axis \<open>[0, 1]\<close>.\<close>

theorem shape_pulse_same_length_witness:
  "\<exists>shaped. shape_pulse [1, 0] [0, 1] (map (\<lambda>f. 1)) (1 / 10) = Inr shaped \<and>
             length shaped = 2"
  using shape_pulse_same_length[of "[1, 0]" "[0, 1]" "map (\<lambda>f. 1)" "1 / 10"]
  by (simp add: eval_nat_numeral)

subsection \<open>C8: the model at the sample frequencies\<close>

text \<open>
  Claim C8 says that the model at a sample frequency is the sample response and that
  the model at minus the sample frequency is its conjugate.  The second part fails
  for a sample at frequency \<open>0\<close> whose response is not real: with the samples
  \<open>(0, 1 + i)\<close>, \<open>(3, 2)\<close> the model at \<open>- 0\<close> is \<open>1 + i\<close>, not its conjugate.
\<close>

theorem interpolation_dc_counterexample:
  "make_transfer_func [1 + \<i>, 2] [0, 3] =
     Inr (full_transfer_func (spline_eval [0, 3] [1 + \<i>, 2]) 3 0, 3, 0) \<and>
   full_transfer_func (spline_eval [0, 3] [1 + \<i>, 2]) 3 0 [- ([0, 3] ! 0)] = [1 + \<i>] \<and>
   full_transfer_func (spline_eval [0, 3] [1 + \<i>, 2]) 3 0 [- ([0, 3] ! 0)]
     \<noteq> [cnj ([1 + \<i>, 2] ! 0)]"
proof -
  have "spline_eval [0, 3] [1 + \<i>, 2] ([0, 3] ! 0) = [1 + \<i>, 2] ! 0"
    by (rule spline_eval_knot) simp_all
  then have "spline_eval [0, 3] [1 + \<i>, 2] 0 = 1 + \<i>" by simp
  then show ?thesis
    using model_b by (simp add: full_transfer_func_singleton complex_eq_iff)
qed

text \<open>
  Claim C8, amended.  For every model built from samples with strictly increasing,
  non-negative frequencies and for every sample frequency \<open>f\<^sub>i\<close>, the model at \<open>f\<^sub>i\<close> is
  the sample response at \<open>f\<^sub>i\<close>, and for every sample frequency other than \<open>0\<close> the
  model at \<open>- f\<^sub>i\<close> is the conjugate of that response.
\<close>

theorem interpolation_fidelity:
  assumes "make_transfer_func s21 swept_fs = Inr (model, upper_limit, lower_limit)"
    and "0 \<le> hd swept_fs" and "i < length swept_fs"
  shows "model [swept_fs ! i] = [s21 ! i] \<and>
         (swept_fs ! i \<noteq> 0 \<longrightarrow> model [- swept_fs ! i] = [cnj (s21 ! i)])"
proof -
  from assms(1) have sorted: "sorted_wrt (<) swept_fs" and len: "2 \<le> length swept_fs"
    and model: "model = full_transfer_func (spline_eval swept_fs s21) (last swept_fs) (hd swept_fs)"
    by (simp_all add: make_transfer_func_Inr_iff)
  have knot: "spline_eval swept_fs s21 (swept_fs ! i) = s21 ! i"
    using sorted assms(3) len by (rule spline_eval_knot)
  have bounds: "hd swept_fs \<le> swept_fs ! i" "swept_fs ! i \<le> last swept_fs"
    using strictly_increasing_bounds[OF sorted assms(3)] by simp_all
  with assms(2) have nonneg: "0 \<le> swept_fs ! i" by simp
  show ?thesis
    using bounds nonneg assms(2) knot
    by (auto simp: model full_transfer_func_singleton)
qed

text \<open>
  Claim C8, amended, on an input: the model of the samples \<open>(0, 1 + i)\<close>, \<open>(3, 2)\<close> at
  the sample frequency \<open>3\<close> and at \<open>- 3\<close>.
\<close>

theorem interpolation_fidelity_witness:
  "make_transfer_func [1 + \<i>, 2] [0, 3] =
     Inr (full_transfer_func (spline_eval [0, 3] [1 + \<i>, 2]) 3 0, 3, 0) \<and>
   full_transfer_func (spline_eval [0, 3] [1 + \<i>, 2]) 3 0 [3] = [2] \<and>
   full_transfer_func (spline_eval [0, 3] [1 + \<i>, 2]) 3 0 [- 3] = [cnj 2]"
  using interpolation_fidelity[OF model_b, of 1] model_b by simp

subsection \<open>C9: construction errors\<close>

text \<open>
  Claim C9.  Building a model from sample frequencies that are not strictly
  increasing, that contain a duplicate or that number fewer than two raises the error
  of the interpolation routine (a \<open>ValueError\<close>); for at least two samples with
  strictly increasing frequencies the construction succeeds.
\<close>

theorem construction_error:
  "(length swept_fs < 2 \<or> \<not> sorted_wrt (<) swept_fs \<or> \<not> distinct swept_fs
      \<longrightarrow> make_transfer_func s21 swept_fs = Inl ValueError) \<and>
   (2 \<le> length swept_fs \<and> sorted_wrt (<) swept_fs \<and> length s21 = length swept_fs
      \<longrightarrow> (\<exists>model upper_limit lower_limit.
             make_transfer_func s21 swept_fs = Inr (model, upper_limit, lower_limit)))"
  using strictly_increasing_distinct[of swept_fs]
  by (auto simp: make_transfer_func_Inl_iff make_transfer_func_Inr_iff)

text \<open>
  Claim C9, on inputs: a duplicate frequency, a single sample, frequencies out of
  order, and two samples in order.
\<close>

theorem construction_error_witness:
  "make_transfer_func [1, 2] [1, 1] = Inl ValueError \<and>
   make_transfer_func [1] [1] = Inl ValueError \<and>
   make_transfer_func [1, 2, 3] [1, 3, 2] = Inl ValueError \<and>
   (\<exists>model upper_limit lower_limit.
      make_transfer_func [1, 1 / 2] [0, 1] = Inr (model, upper_limit, lower_limit))"
  using construction_error[of "[1, 1]" "[1, 2]"] construction_error[of "[1]" "[1]"]
        construction_error[of "[1, 3, 2]" "[1, 2, 3]"]
        construction_error[of "[0, 1]" "[1, 1 / 2]"]
  by simp

subsection \<open>C10: the time axis matters through its spacing only\<close>

text \<open>
  Claim C10.  Two time axes of at least two entries each whose first two entries
  have the same difference give the same result of \<open>shape_pulse\<close>, for every pulse,
  transfer function and scaling limit, whatever the other entries and the lengths of
  the axes are.
\<close>

theorem time_axis_only_spacing:
  assumes "2 \<le> length time_int" and "2 \<le> length time_int'"
    and "time_int ! 1 - time_int ! 0 = time_int' ! 1 - time_int' ! 0"
  shows "shape_pulse pulse time_int transfer_func scaling_limit
           = shape_pulse pulse time_int' transfer_func scaling_limit"
  using assms by (simp add: shape_pulse_def)

text \<open>
  Claim C10, on an input: the time axes \<open>[0, 1]\<close> and \<open>[5, 6, 100]\<close>, both of spacing
  \<open>1\<close>.
\<close>

theorem time_axis_only_spacing_witness:
  "shape_pulse [1, 0] [0, 1] (map (\<lambda>f. 1)) (1 / 10)
     = shape_pulse [1, 0] [5, 6, 100] (map (\<lambda>f. 1)) (1 / 10)"
  using time_axis_only_spacing[of "[0, 1]" "[5, 6, 100]" "[1, 0]" "map (\<lambda>f. 1)" "1 / 10"]
  by simp

end
